theory Spec2Isabelle
  imports Main
begin

section \<open>Entities and tables\<close>

text \<open>
  The order workflow of the repository: \<^verbatim>\<open>ProductsService\<close> (stock ledger and batch
  maintenance) and \<^verbatim>\<open>OrdersService\<close> (create, updateStatus, processPayment, cancel and
  the projection to \<^verbatim>\<open>OrderFullDetailsResponse\<close>).

  JavaScript numbers that hold identifiers, quantities, stock counts, timestamps and
  monetary amounts are modelled as \<^typ>\<open>int\<close> (amounts in minor units). An exception is a
  value of type \<open>exn\<close>; every service method returns its result together with the
  database it leaves behind, because a thrown exception does not undo the writes made
  before it. A repository table is the list of its rows in insertion order.
\<close>

text \<open>
  Modelled from the spec: the enum \<^verbatim>\<open>OrderStatus\<close> of \<^verbatim>\<open>order.entity\<close>, which is
  imported by the services but is not among the sources. The spec gives the states
  \<^verbatim>\<open>PENDING\<close>, \<^verbatim>\<open>CONFIRMED\<close> and \<^verbatim>\<open>CANCELLED\<close>.
\<close>

datatype OrderStatus = PENDING | CONFIRMED | CANCELLED

text \<open>
  Modelled from the spec: the entity classes \<^verbatim>\<open>Category\<close>, \<^verbatim>\<open>Product\<close>, \<^verbatim>\<open>User\<close>,
  \<^verbatim>\<open>OrderItem\<close> and \<^verbatim>\<open>Order\<close> (their declarations are not among the sources). The
  fields are the ones the services read and write. A relation property
  (\<open>p_category\<close>, \<open>oi_product\<close>, \<open>o_user\<close>, \<open>o_items\<close>) is \<open>None\<close> or \<open>[]\<close> while it is not
  loaded; the stored rows of orders and order items keep their relations unloaded.
\<close>

record Category =
  c_id :: int
  c_name :: string

record Product =
  p_id :: int
  p_name :: string
  p_price :: int
  p_stock :: int
  p_updatedAt :: int
  p_category :: "Category option"

record User =
  u_id :: int
  u_email :: string
  u_name :: string
  u_isActive :: bool
  u_createdAt :: int

record OrderItem =
  oi_id :: int
  oi_orderId :: int
  oi_productId :: int
  oi_quantity :: int
  oi_price :: int
  oi_product :: "Product option"

record Order =
  o_id :: int
  o_userId :: int
  o_status :: OrderStatus
  o_total :: int
  o_createdAt :: int
  o_user :: "User option"
  o_items :: "OrderItem list"

text \<open>
  Modelled from the spec: \<^verbatim>\<open>CreateOrderDto\<close> (\<^verbatim>\<open>dto/create-order.dto\<close> is not among the
  sources): a user id and the requested line items, each a product id and a quantity.
\<close>

record OrderItemDto =
  dto_productId :: int
  dto_quantity :: int

record CreateOrderDto =
  dto_userId :: int
  dto_items :: "OrderItemDto list"

record db =
  users :: "User list"
  products :: "Product list"
  orders :: "Order list"
  orderItems :: "OrderItem list"

text \<open>
  The exceptions of the services: Nest's \<^verbatim>\<open>NotFoundException\<close> and
  \<^verbatim>\<open>BadRequestException\<close> with their messages, the \<^verbatim>\<open>Error\<close> a payment gateway throws,
  the value \<^verbatim>\<open>undefined\<close> thrown by \<^verbatim>\<open>throw lastError!\<close> when no error was recorded,
  and the \<^verbatim>\<open>TypeError\<close> of a property read on \<^verbatim>\<open>null\<close>.
\<close>

datatype exn =
    NotFoundException string
  | BadRequestException string
  | Error string
  | Undefined
  | TypeError

subsection \<open>Template strings\<close>

fun show_nat :: "nat \<Rightarrow> string" where
  "show_nat n =
     (if n < 10 then [char_of (48 + n)]
      else show_nat (n div 10) @ [char_of (48 + n mod 10)])"

declare show_nat.simps [simp del]

definition show_int :: "int \<Rightarrow> string" where
  "show_int i = (if i < 0 then CHR ''-'' # show_nat (nat (- i)) else show_nat (nat i))"

section \<open>ProductsService\<close>

definition ProductsService_findOne :: "int \<Rightarrow> db \<Rightarrow> exn + Product" where
  "ProductsService_findOne i d =
     (case find (\<lambda>p. p_id p = i) (products d) of
        None \<Rightarrow> Inl (NotFoundException (''Product #'' @ show_int i @ '' not found''))
      | Some product \<Rightarrow> Inr product)"

text \<open>
  \<^verbatim>\<open>productsRepository.save\<close> of an entity that carries an id: the row with that id is
  overwritten, and the entity is inserted when there is none.
\<close>

definition save_product :: "Product \<Rightarrow> db \<Rightarrow> db" where
  "save_product product d =
     d\<lparr>products :=
        (if find (\<lambda>r. p_id r = p_id product) (products d) = None
         then products d @ [product]
         else map (\<lambda>r. if p_id r = p_id product then product else r) (products d))\<rparr>"

definition updateStock :: "int \<Rightarrow> int \<Rightarrow> db \<Rightarrow> (exn + Product) \<times> db" where
  "updateStock i quantity d =
     (case ProductsService_findOne i d of
        Inl e \<Rightarrow> (Inl e, d)
      | Inr product \<Rightarrow>
          (let product' = product\<lparr>p_stock := quantity\<rparr>
           in (Inr product', save_product product' d)))"

text \<open>
  \<^verbatim>\<open>decrementStock\<close> is one SQL statement,
  \<^verbatim>\<open>UPDATE product SET stock = stock - :quantity WHERE id = :id AND stock >= :quantity\<close>;
  \<open>affected\<close> is the number of rows its \<^verbatim>\<open>WHERE\<close> clause selects.
\<close>

definition decrementStock :: "int \<Rightarrow> int \<Rightarrow> db \<Rightarrow> (exn + unit) \<times> db" where
  "decrementStock i quantity d =
     (let hit = (\<lambda>p. p_id p = i \<and> p_stock p \<ge> quantity);
          affected = length (filter hit (products d));
          d' = d\<lparr>products :=
                 map (\<lambda>p. if hit p then p\<lparr>p_stock := p_stock p - quantity\<rparr> else p)
                   (products d)\<rparr>
      in if affected = 0
         then (Inl (BadRequestException ''Not enough stock available''), d')
         else (Inr (), d'))"




section \<open>OrdersService\<close>

text \<open>
  Modelled from the spec: \<^verbatim>\<open>UsersService.findOne\<close> (\<^verbatim>\<open>users.service\<close> is not among the
  sources): \<^verbatim>\<open>getUser(id) -> User | UserNotFound\<close>, a \<^verbatim>\<open>NotFound\<close> failure as for the
  other entities.
\<close>

definition UsersService_findOne :: "int \<Rightarrow> db \<Rightarrow> exn + User" where
  "UsersService_findOne i d =
     (case find (\<lambda>u. u_id u = i) (users d) of
        None \<Rightarrow> Inl (NotFoundException (''User #'' @ show_int i @ '' not found''))
      | Some user \<Rightarrow> Inr user)"

text \<open>
  Loading the relations of an order row. \<^verbatim>\<open>findOne\<close> asks for \<^verbatim>\<open>user\<close>, \<^verbatim>\<open>items\<close> and
  \<^verbatim>\<open>items.product\<close>; \<^verbatim>\<open>getOrderWithFullDetails\<close> also for \<^verbatim>\<open>items.product.category\<close>
  (\<open>withCategory\<close>). A relation whose row is missing is loaded as \<^verbatim>\<open>null\<close>.
\<close>

definition loadItem :: "bool \<Rightarrow> db \<Rightarrow> OrderItem \<Rightarrow> OrderItem" where
  "loadItem withCategory d item =
     item\<lparr>oi_product :=
       map_option (\<lambda>p. if withCategory then p else p\<lparr>p_category := None\<rparr>)
         (find (\<lambda>p. p_id p = oi_productId item) (products d))\<rparr>"

definition loadOrder :: "bool \<Rightarrow> db \<Rightarrow> Order \<Rightarrow> Order" where
  "loadOrder withCategory d row =
     row\<lparr>o_user := find (\<lambda>u. u_id u = o_userId row) (users d),
         o_items := map (loadItem withCategory d)
                      (filter (\<lambda>item. oi_orderId item = o_id row) (orderItems d))\<rparr>"

definition OrdersService_findOne :: "int \<Rightarrow> db \<Rightarrow> exn + Order" where
  "OrdersService_findOne i d =
     (case find (\<lambda>r. o_id r = i) (orders d) of
        None \<Rightarrow> Inl (NotFoundException (''Order #'' @ show_int i @ '' not found''))
      | Some row \<Rightarrow> Inr (loadOrder False d row))"

text \<open>
  \<^verbatim>\<open>ordersRepository.save\<close> of an order that carries an id writes its columns to the row
  with that id (no relation is declared cascading in the services' use of it).
\<close>

definition save_order :: "Order \<Rightarrow> db \<Rightarrow> db" where
  "save_order order d =
     (let row = order\<lparr>o_user := None, o_items := []\<rparr>
      in d\<lparr>orders :=
           (if find (\<lambda>r. o_id r = o_id order) (orders d) = None
            then orders d @ [row]
            else map (\<lambda>r. if o_id r = o_id order then row else r) (orders d))\<rparr>)"

text \<open>
  A generated primary key: one more than the largest key of the table (and 1 for an
  empty table), as an auto-increment column of a table that never loses a row gives.
\<close>

definition nextId :: "int list \<Rightarrow> int" where
  "nextId ids = fold max ids 0 + 1"

text \<open>
  The loop of \<^verbatim>\<open>create\<close> over the requested items; \<open>acc\<close> is the running \<^verbatim>\<open>total\<close>. It stops at
  the first exception and leaves the database as written so far.
\<close>

fun createItems :: "int \<Rightarrow> OrderItemDto list \<Rightarrow> int \<Rightarrow> db \<Rightarrow> (exn + int) \<times> db" where
  "createItems orderId [] acc d = (Inr acc, d)"
| "createItems orderId (itemDto # rest) acc d =
     (case ProductsService_findOne (dto_productId itemDto) d of
        Inl e \<Rightarrow> (Inl e, d)
      | Inr product \<Rightarrow>
          if p_stock product < dto_quantity itemDto
          then (Inl (BadRequestException (''Not enough stock for '' @ p_name product)), d)
          else
            (let orderItem = \<lparr>oi_id = nextId (map oi_id (orderItems d)),
                              oi_orderId = orderId,
                              oi_productId = p_id product,
                              oi_quantity = dto_quantity itemDto,
                              oi_price = p_price product,
                              oi_product = None\<rparr>;
                 d1 = d\<lparr>orderItems := orderItems d @ [orderItem]\<rparr>;
                 acc' = acc + p_price product * dto_quantity itemDto
             in (case decrementStock (p_id product) (dto_quantity itemDto) d1 of
                   (Inl e, d2) \<Rightarrow> (Inl e, d2)
                 | (Inr u, d2) \<Rightarrow> createItems orderId rest acc' d2)))"

text \<open>
  \<^verbatim>\<open>create\<close>; \<open>now\<close> is the creation timestamp the database gives the new row. The order
  shell is saved with status \<^verbatim>\<open>PENDING\<close> (and total 0, as the spec has it) before the
  items are looked at.
\<close>

definition create :: "CreateOrderDto \<Rightarrow> int \<Rightarrow> db \<Rightarrow> (exn + Order) \<times> db" where
  "create createOrderDto now d =
     (case UsersService_findOne (dto_userId createOrderDto) d of
        Inl e \<Rightarrow> (Inl e, d)
      | Inr user \<Rightarrow>
          (let savedOrder = \<lparr>o_id = nextId (map o_id (orders d)),
                             o_userId = u_id user,
                             o_status = PENDING,
                             o_total = 0,
                             o_createdAt = now,
                             o_user = None,
                             o_items = []\<rparr>;
               d1 = d\<lparr>orders := orders d @ [savedOrder]\<rparr>
           in (case createItems (o_id savedOrder) (dto_items createOrderDto) 0 d1 of
                 (Inl e, d2) \<Rightarrow> (Inl e, d2)
               | (Inr acc, d2) \<Rightarrow>
                   (let d3 = save_order (savedOrder\<lparr>o_total := acc\<rparr>) d2
                    in (OrdersService_findOne (o_id savedOrder) d3, d3)))))"

definition updateStatus :: "int \<Rightarrow> OrderStatus \<Rightarrow> db \<Rightarrow> (exn + Order) \<times> db" where
  "updateStatus i status d =
     (case OrdersService_findOne i d of
        Inl e \<Rightarrow> (Inl e, d)
      | Inr order \<Rightarrow>
          (let order' = order\<lparr>o_status := status\<rparr>
           in (Inr order', save_order order' d)))"

subsection \<open>Payment\<close>

text \<open>
  The payment service is an unreliable collaborator (in the source a stub that throws
  at random). It is a parameter here: \<open>gateway k\<close> is what the call of attempt \<open>k\<close> does,
  throw an exception or return a result. What \<^verbatim>\<open>processPayment\<close> does to the outside
  is recorded as a trace of gateway calls and \<^verbatim>\<open>setTimeout\<close> waits in milliseconds.
\<close>

record PaymentResult =
  pr_success :: bool
  pr_transactionId :: string

datatype outcome = Throws exn | Returns PaymentResult

datatype event = Charge int int | Wait nat

definition maxRetries :: nat where
  "maxRetries = 3"

function payLoop ::
    "(nat \<Rightarrow> outcome) \<Rightarrow> int \<Rightarrow> Order \<Rightarrow> nat \<Rightarrow> exn option \<Rightarrow> event list \<Rightarrow> db
       \<Rightarrow> (exn + PaymentResult) \<times> db \<times> event list" where
  "payLoop gateway orderId order attempt lastError trace d =
     (if attempt < maxRetries
      then
        (case gateway attempt of
           Returns result \<Rightarrow>
             if pr_success result
             then (Inr result, save_order (order\<lparr>o_status := CONFIRMED\<rparr>) d,
                   trace @ [Charge orderId (o_total order)])
             else payLoop gateway orderId order (attempt + 1) lastError
                    (trace @ [Charge orderId (o_total order)]) d
         | Throws error \<Rightarrow>
             payLoop gateway orderId order (attempt + 1) (Some error)
               (trace @ [Charge orderId (o_total order), Wait (100 * 2 ^ attempt)]) d)
      else
        (case lastError of
           None \<Rightarrow> (Inl Undefined, d, trace)
         | Some error \<Rightarrow> (Inl error, d, trace)))"
  by pat_completeness auto
termination
  by (relation "measure (\<lambda>(gateway, orderId, order, attempt, lastError, trace, d).
        maxRetries - attempt)")
    auto

declare payLoop.simps [simp del]

definition processPayment ::
    "(nat \<Rightarrow> outcome) \<Rightarrow> int \<Rightarrow> db \<Rightarrow> (exn + PaymentResult) \<times> db \<times> event list" where
  "processPayment gateway orderId d =
     (case OrdersService_findOne orderId d of
        Inl e \<Rightarrow> (Inl e, d, [])
      | Inr order \<Rightarrow> payLoop gateway orderId order 0 None [] d)"

subsection \<open>Cancellation\<close>

text \<open>The loop of \<^verbatim>\<open>cancel\<close> over the loaded items of the order.\<close>

fun restockItems :: "OrderItem list \<Rightarrow> db \<Rightarrow> (exn + unit) \<times> db" where
  "restockItems [] d = (Inr (), d)"
| "restockItems (item # rest) d =
     (case ProductsService_findOne (oi_productId item) d of
        Inl e \<Rightarrow> (Inl e, d)
      | Inr product \<Rightarrow>
          (case updateStock (p_id product) (p_stock product + oi_quantity item) d of
             (Inl e, d1) \<Rightarrow> (Inl e, d1)
           | (Inr u, d1) \<Rightarrow> restockItems rest d1))"

definition cancel :: "int \<Rightarrow> db \<Rightarrow> (exn + Order) \<times> db" where
  "cancel i d =
     (case OrdersService_findOne i d of
        Inl e \<Rightarrow> (Inl e, d)
      | Inr order \<Rightarrow>
          if o_status order \<noteq> PENDING
          then (Inl (BadRequestException ''Only pending orders can be cancelled''), d)
          else
            (case restockItems (o_items order) d of
               (Inl e, d1) \<Rightarrow> (Inl e, d1)
             | (Inr u, d1) \<Rightarrow>
                 (let order' = order\<lparr>o_status := CANCELLED\<rparr>
                  in (Inr order', save_order order' d1))))"

subsection \<open>Projection\<close>

record CategorySummary =
  cs_id :: int
  cs_name :: string

record ProductSummary =
  ps_id :: int
  ps_name :: string
  ps_price :: int
  ps_category :: "CategorySummary option"

record OrderItemDetails =
  oid_id :: int
  oid_productId :: int
  oid_quantity :: int
  oid_price :: int
  oid_product :: ProductSummary

record OrderSummary =
  os_id :: int
  os_status :: OrderStatus
  os_total :: int
  os_createdAt :: int

record UserSummary =
  us_id :: int
  us_email :: string
  us_name :: string
  us_isActive :: bool
  us_createdAt :: int
  us_latestOrder :: OrderSummary

record OrderFullDetailsResponse =
  r_id :: int
  r_status :: OrderStatus
  r_total :: int
  r_userId :: int
  r_createdAt :: int
  r_user :: UserSummary
  r_items :: "OrderItemDetails list"

text \<open>
  The callback of \<^verbatim>\<open>order.items.map\<close>. Reading a field of a product that was not
  loaded (\<^verbatim>\<open>null\<close>) throws a \<^verbatim>\<open>TypeError\<close>.
\<close>

definition mapItem :: "OrderItem \<Rightarrow> exn + OrderItemDetails" where
  "mapItem item =
     (case oi_product item of
        None \<Rightarrow> Inl TypeError
      | Some product \<Rightarrow>
          Inr \<lparr>oid_id = oi_id item,
               oid_productId = oi_productId item,
               oid_quantity = oi_quantity item,
               oid_price = oi_price item,
               oid_product =
                 \<lparr>ps_id = p_id product,
                  ps_name = p_name product,
                  ps_price = p_price product,
                  ps_category =
                    (case p_category product of
                       Some category \<Rightarrow> Some \<lparr>cs_id = c_id category, cs_name = c_name category\<rparr>
                     | None \<Rightarrow> None)\<rparr>\<rparr>)"

fun mapItems :: "OrderItem list \<Rightarrow> exn + OrderItemDetails list" where
  "mapItems [] = Inr []"
| "mapItems (item # rest) =
     (case mapItem item of
        Inl e \<Rightarrow> Inl e
      | Inr x \<Rightarrow> (case mapItems rest of Inl e \<Rightarrow> Inl e | Inr xs \<Rightarrow> Inr (x # xs)))"

definition mapToOrderFullDetails :: "Order \<Rightarrow> exn + OrderFullDetailsResponse" where
  "mapToOrderFullDetails order =
     (case o_user order of
        None \<Rightarrow> Inl TypeError
      | Some user \<Rightarrow>
          (case mapItems (o_items order) of
             Inl e \<Rightarrow> Inl e
           | Inr itemDetails \<Rightarrow>
               Inr \<lparr>r_id = o_id order,
                    r_status = o_status order,
                    r_total = o_total order,
                    r_userId = o_userId order,
                    r_createdAt = o_createdAt order,
                    r_user =
                      \<lparr>us_id = u_id user,
                       us_email = u_email user,
                       us_name = u_name user,
                       us_isActive = u_isActive user,
                       us_createdAt = u_createdAt user,
                       us_latestOrder =
                         \<lparr>os_id = o_id order,
                          os_status = o_status order,
                          os_total = o_total order,
                          os_createdAt = o_createdAt order\<rparr>\<rparr>,
                    r_items = itemDetails\<rparr>))"

definition getOrderWithFullDetails :: "int \<Rightarrow> db \<Rightarrow> exn + OrderFullDetailsResponse" where
  "getOrderWithFullDetails i d =
     (case find (\<lambda>r. o_id r = i) (orders d) of
        None \<Rightarrow> Inl (NotFoundException (''Order #'' @ show_int i @ '' not found''))
      | Some row \<Rightarrow> mapToOrderFullDetails (loadOrder True d row))"

section \<open>Observations and example data\<close>

text \<open>The stock of the product with id \<open>i\<close>, as \<^verbatim>\<open>findOne\<close> would read it.\<close>

definition stockOf :: "db \<Rightarrow> int \<Rightarrow> int option" where
  "stockOf d i = map_option p_stock (find (\<lambda>p. p_id p = i) (products d))"


definition stockNonNegative :: "db \<Rightarrow> bool" where
  "stockNonNegative d = list_all (\<lambda>p. 0 \<le> p_stock p) (products d)"

text \<open>
  A run of \<^verbatim>\<open>decrementStock\<close> calls against the product \<open>i\<close>, in the order in which the
  database serialises the statements (each call is one atomic \<^verbatim>\<open>UPDATE\<close>). The result
  is the list of the quantities whose reservation succeeded, and the final database.
\<close>

fun reserveAll :: "int \<Rightarrow> int list \<Rightarrow> db \<Rightarrow> int list \<times> db" where
  "reserveAll i [] d = ([], d)"
| "reserveAll i (q # qs) d =
     (case decrementStock i q d of
        (Inl e, d1) \<Rightarrow> reserveAll i qs d1
      | (Inr u, d1) \<Rightarrow> (case reserveAll i qs d1 of (granted, d2) \<Rightarrow> (q # granted, d2)))"

definition userA :: User where
  "userA = \<lparr>u_id = 1, u_email = ''a@example.org'', u_name = ''A'', u_isActive = True,
            u_createdAt = 0\<rparr>"

definition productP :: Product where
  "productP = \<lparr>p_id = 1, p_name = ''P'', p_price = 250, p_stock = 1, p_updatedAt = 0,
               p_category = None\<rparr>"

definition productQ :: Product where
  "productQ = \<lparr>p_id = 2, p_name = ''Q'', p_price = 100, p_stock = 5, p_updatedAt = 0,
               p_category = Some \<lparr>c_id = 7, c_name = ''tools''\<rparr>\<rparr>"

text \<open>A shop with one user, two products and no order yet.\<close>

definition shop :: db where
  "shop = \<lparr>users = [userA], products = [productP, productQ], orders = [], orderItems = []\<rparr>"

text \<open>
  The same shop after user A ordered two units of Q at time 10: the order is
  \<^verbatim>\<open>PENDING\<close>, its one item holds the price snapshot, two units of Q are reserved.
\<close>

definition orderOne :: Order where
  "orderOne = \<lparr>o_id = 1, o_userId = 1, o_status = PENDING, o_total = 200, o_createdAt = 10,
               o_user = None, o_items = []\<rparr>"

definition itemOne :: OrderItem where
  "itemOne = \<lparr>oi_id = 1, oi_orderId = 1, oi_productId = 2, oi_quantity = 2, oi_price = 100,
              oi_product = None\<rparr>"

definition shopWithOrder :: db where
  "shopWithOrder = \<lparr>users = [userA], products = [productP, productQ\<lparr>p_stock := 3\<rparr>],
                    orders = [orderOne], orderItems = [itemOne]\<rparr>"

text \<open>The shop after that order was cancelled: the two units are back, the order is terminal.\<close>

definition cancelledShop :: db where
  "cancelledShop = shopWithOrder\<lparr>products := [productP, productQ],
                                 orders := [orderOne\<lparr>o_status := CANCELLED\<rparr>]\<rparr>"


definition tooMany :: CreateOrderDto where
  "tooMany = \<lparr>dto_userId = 1, dto_items = [\<lparr>dto_productId = 1, dto_quantity = 2\<rparr>]\<rparr>"

definition secondLineTooMany :: CreateOrderDto where
  "secondLineTooMany = \<lparr>dto_userId = 1,
      dto_items = [\<lparr>dto_productId = 2, dto_quantity = 2\<rparr>, \<lparr>dto_productId = 1, dto_quantity = 2\<rparr>]\<rparr>"

section \<open>Tables: lookups and updates by key\<close>

lemma find_map_key:
  assumes "\<And>r. key (f r) = key r"
  shows "find (\<lambda>r. key r = i) (map f rs) = map_option f (find (\<lambda>r. key r = i) rs)"
  using assms by (induction rs) auto

lemma filter_key_distinct:
  assumes "distinct (map key rs)" and "find (\<lambda>r. key r = i) rs = Some p"
  shows "filter (\<lambda>r. key r = i \<and> P r) rs = (if P p then [p] else [])"
  using assms
proof (induction rs)
  case Nil
  then show ?case by simp
next
  case (Cons r rs)
  show ?case
  proof (cases "key r = i")
    case True
    with Cons.prems have eq: "p = r" by simp
    have "key r \<notin> key ` set rs" using Cons.prems(1) by simp
    then have "\<forall>x\<in>set rs. key x \<noteq> i" using True by blast
    then have "filter (\<lambda>r. key r = i \<and> P r) rs = []" by (auto simp: filter_empty_conv)
    then show ?thesis using True eq by simp
  next
    case False
    with Cons show ?thesis by simp
  qed
qed

lemma find_replace:
  assumes "key new = k"
  shows "find (\<lambda>r. key r = j) (map (\<lambda>r. if key r = k then new else r) rs)
           = (if j = k then (if find (\<lambda>r. key r = k) rs = None then None else Some new)
              else find (\<lambda>r. key r = j) rs)"
  using assms by (induction rs) auto

lemma find_key: "find (\<lambda>r. key r = i) rs = Some p \<Longrightarrow> key p = i \<and> p \<in> set rs"
  by (auto simp: find_Some_iff)

section \<open>The stock ledger\<close>

lemma decrementStock_fails_unchanged:
  assumes "fst (decrementStock i q d) \<noteq> Inr ()"
  shows "snd (decrementStock i q d) = d"
proof -
  from assms have "filter (\<lambda>p. p_id p = i \<and> q \<le> p_stock p) (products d) = []"
    by (simp add: decrementStock_def Let_def split: if_splits)
  then have "\<forall>p\<in>set (products d). \<not> (p_id p = i \<and> q \<le> p_stock p)"
    by (simp add: filter_empty_conv)
  then have "map (\<lambda>p. if p_id p = i \<and> q \<le> p_stock p then p\<lparr>p_stock := p_stock p - q\<rparr> else p)
               (products d) = products d"
    by (intro map_idI) auto
  then show ?thesis by (simp add: decrementStock_def Let_def)
qed

lemma decrementStock_products:
  "products (snd (decrementStock i q d)) =
     map (\<lambda>p. if p_id p = i \<and> q \<le> p_stock p then p\<lparr>p_stock := p_stock p - q\<rparr> else p)
       (products d)"
  by (simp add: decrementStock_def Let_def)

lemma decrementStock_short:
  assumes "distinct (map p_id (products d))"
      and "find (\<lambda>p. p_id p = i) (products d) = Some p"
      and "p_stock p < q"
  shows "decrementStock i q d = (Inl (BadRequestException ''Not enough stock available''), d)"
proof -
  have "filter (\<lambda>r. p_id r = i \<and> q \<le> p_stock r) (products d) = []"
    using filter_key_distinct [OF assms(1,2), of "\<lambda>r. q \<le> p_stock r"] assms(3) by simp
  then have f: "fst (decrementStock i q d) = Inl (BadRequestException ''Not enough stock available'')"
    by (simp add: decrementStock_def Let_def)
  then have "snd (decrementStock i q d) = d"
    using decrementStock_fails_unchanged [of i q d] by simp
  with f show ?thesis by (metis prod.collapse)
qed

lemma decrementStock_enough:
  assumes "distinct (map p_id (products d))"
      and "find (\<lambda>p. p_id p = i) (products d) = Some p"
      and "\<not> p_stock p < q"
  shows "decrementStock i q d =
           (Inr (), d\<lparr>products :=
                      map (\<lambda>r. if p_id r = i then r\<lparr>p_stock := p_stock r - q\<rparr> else r)
                        (products d)\<rparr>)"
    and "stockOf (snd (decrementStock i q d)) i = Some (p_stock p - q)"
proof -
  have hit: "filter (\<lambda>r. p_id r = i \<and> q \<le> p_stock r) (products d) = [p]"
    using filter_key_distinct [OF assms(1,2), of "\<lambda>r. q \<le> p_stock r"] assms(3) by simp
  have only: "\<And>r. r \<in> set (products d) \<Longrightarrow> p_id r = i \<Longrightarrow> r = p"
    using assms(1,2) by (metis (mono_tags, lifting) distinct_map find_Some_iff inj_onD nth_mem)
  have maps: "map (\<lambda>r. if p_id r = i \<and> q \<le> p_stock r then r\<lparr>p_stock := p_stock r - q\<rparr> else r)
                (products d)
              = map (\<lambda>r. if p_id r = i then r\<lparr>p_stock := p_stock r - q\<rparr> else r) (products d)"
    using assms(3) only by (intro map_cong) auto
  show ok: "decrementStock i q d =
              (Inr (), d\<lparr>products :=
                         map (\<lambda>r. if p_id r = i then r\<lparr>p_stock := p_stock r - q\<rparr> else r)
                           (products d)\<rparr>)"
    using hit maps by (simp add: decrementStock_def Let_def)
  have pid: "p_id p = i" using find_key [OF assms(2)] by simp
  show "stockOf (snd (decrementStock i q d)) i = Some (p_stock p - q)"
    using ok assms(2) pid by (simp add: stockOf_def find_map_key [where key = p_id])
qed

text \<open>For an id without a row the statement selects nothing, and the same exception is thrown.\<close>

lemma decrementStock_missing:
  assumes "find (\<lambda>p. p_id p = i) (products d) = None"
  shows "decrementStock i q d = (Inl (BadRequestException ''Not enough stock available''), d)"
proof -
  have "filter (\<lambda>r. p_id r = i \<and> q \<le> p_stock r) (products d) = []"
    using assms by (auto simp: find_None_iff filter_empty_conv)
  then have f: "fst (decrementStock i q d) = Inl (BadRequestException ''Not enough stock available'')"
    by (simp add: decrementStock_def Let_def)
  then have "snd (decrementStock i q d) = d"
    using decrementStock_fails_unchanged [of i q d] by simp
  with f show ?thesis by (metis prod.collapse)
qed

text \<open>
  Claim C2. For a product that exists (the table's ids being a primary key),
  \<^verbatim>\<open>decrementStock\<close> throws its insufficient-stock exception exactly when the stock is
  below the quantity; it then leaves the database as it was; and otherwise it returns
  normally and its one update subtracts the quantity from the stock of that product
  and changes nothing else.
\<close>

theorem decrementStock_conditional:
  assumes "distinct (map p_id (products d))"
      and "find (\<lambda>p. p_id p = i) (products d) = Some p"
  shows "(fst (decrementStock i q d) = Inl (BadRequestException ''Not enough stock available'')
            \<longleftrightarrow> p_stock p < q)
       \<and> (p_stock p < q \<longrightarrow> snd (decrementStock i q d) = d)
       \<and> (\<not> p_stock p < q \<longrightarrow>
            decrementStock i q d =
              (Inr (), d\<lparr>products :=
                         map (\<lambda>r. if p_id r = i then r\<lparr>p_stock := p_stock r - q\<rparr> else r)
                           (products d)\<rparr>)
            \<and> stockOf (snd (decrementStock i q d)) i = Some (p_stock p - q))"
proof (cases "p_stock p < q")
  case True
  then show ?thesis using decrementStock_short [OF assms True] by simp
next
  case False
  then show ?thesis using decrementStock_enough [OF assms False] by simp
qed

theorem decrementStock_conditional_witness:
  "stockOf (snd (decrementStock 2 2 shop)) 2 = Some 3
   \<and> fst (decrementStock 2 2 shop) = Inr ()
   \<and> fst (decrementStock 2 9 shop) = Inl (BadRequestException ''Not enough stock available'')
   \<and> snd (decrementStock 2 9 shop) = shop"
proof -
  have pk: "distinct (map p_id (products shop))"
    by (simp add: shop_def productP_def productQ_def)
  have row: "find (\<lambda>p. p_id p = 2) (products shop) = Some productQ"
    by (simp add: shop_def productP_def productQ_def)
  have stock: "p_stock productQ = 5"
    by (simp add: productQ_def)
  have enough: "\<not> p_stock productQ < 2" and short: "p_stock productQ < 9"
    by (simp_all add: stock)
  from decrementStock_conditional [OF pk row, of 2] enough
  have "stockOf (snd (decrementStock 2 2 shop)) 2 = Some (p_stock productQ - 2)"
    and "decrementStock 2 2 shop =
           (Inr (), shop\<lparr>products :=
                      map (\<lambda>r. if p_id r = 2 then r\<lparr>p_stock := p_stock r - 2\<rparr> else r)
                        (products shop)\<rparr>)"
    by blast+
  then have "stockOf (snd (decrementStock 2 2 shop)) 2 = Some 3 \<and> fst (decrementStock 2 2 shop) = Inr ()"
    by (simp add: stock)
  moreover from decrementStock_conditional [OF pk row, of 9] short
  have "fst (decrementStock 2 9 shop) = Inl (BadRequestException ''Not enough stock available'')
      \<and> snd (decrementStock 2 9 shop) = shop"
    by blast
  ultimately show ?thesis by simp
qed

lemma decrementStock_nonneg:
  "stockNonNegative d \<Longrightarrow> stockNonNegative (snd (decrementStock i q d))"
  by (auto simp: stockNonNegative_def decrementStock_products list_all_iff)

lemma save_product_nonneg:
  "stockNonNegative d \<Longrightarrow> 0 \<le> p_stock p \<Longrightarrow> stockNonNegative (save_product p d)"
  by (auto simp: stockNonNegative_def save_product_def list_all_iff)

lemma updateStock_nonneg:
  "stockNonNegative d \<Longrightarrow> 0 \<le> q \<Longrightarrow> stockNonNegative (snd (updateStock i q d))"
  by (auto simp: updateStock_def Let_def save_product_nonneg split: sum.splits)

lemma findOne_nonneg:
  "stockNonNegative d \<Longrightarrow> ProductsService_findOne i d = Inr p \<Longrightarrow> 0 \<le> p_stock p"
  by (auto simp: ProductsService_findOne_def stockNonNegative_def list_all_iff
      split: option.splits dest: find_key)

lemma restockItems_nonneg:
  "stockNonNegative d \<Longrightarrow> list_all (\<lambda>item. 0 \<le> oi_quantity item) its
     \<Longrightarrow> stockNonNegative (snd (restockItems its d))"
proof (induction its arbitrary: d)
  case Nil
  then show ?case by simp
next
  case (Cons item rest)
  show ?case
  proof (cases "ProductsService_findOne (oi_productId item) d")
    case (Inl e)
    then show ?thesis using Cons.prems by simp
  next
    case found: (Inr product)
    have q: "0 \<le> p_stock product + oi_quantity item"
      using findOne_nonneg [OF Cons.prems(1) found] Cons.prems(2) by simp
    have nn: "stockNonNegative
                (snd (updateStock (p_id product) (p_stock product + oi_quantity item) d))"
      using updateStock_nonneg [OF Cons.prems(1) q] .
    show ?thesis
    proof (cases "updateStock (p_id product) (p_stock product + oi_quantity item) d")
      case (Pair r d1)
      with nn have nn1: "stockNonNegative d1" by simp
      show ?thesis
      proof (cases r)
        case (Inl e)
        then show ?thesis using found Pair nn1 by simp
      next
        case (Inr u)
        then show ?thesis using found Pair Cons.IH [OF nn1] Cons.prems(2) by simp
      qed
    qed
  qed
qed

lemma save_order_products: "products (save_order order d) = products d"
  by (simp add: save_order_def Let_def)

lemma loadOrder_items_quantities:
  "list_all (\<lambda>item. 0 \<le> oi_quantity item) (orderItems d)
     \<Longrightarrow> list_all (\<lambda>item. 0 \<le> oi_quantity item) (o_items (loadOrder c d row))"
  by (auto simp: loadOrder_def loadItem_def list_all_iff)

lemma cancel_nonneg:
  assumes "stockNonNegative d" and "list_all (\<lambda>item. 0 \<le> oi_quantity item) (orderItems d)"
  shows "stockNonNegative (snd (cancel i d))"
proof (cases "OrdersService_findOne i d")
  case (Inl e)
  then show ?thesis using assms by (simp add: cancel_def)
next
  case (Inr order)
  then have "list_all (\<lambda>item. 0 \<le> oi_quantity item) (o_items order)"
    using loadOrder_items_quantities [OF assms(2)]
    by (auto simp: OrdersService_findOne_def split: option.splits)
  then have nn: "stockNonNegative (snd (restockItems (o_items order) d))"
    using restockItems_nonneg assms(1) by blast
  show ?thesis
  proof (cases "restockItems (o_items order) d")
    case (Pair r d1)
    with nn have nn1: "stockNonNegative d1" by simp
    then have "stockNonNegative (save_order (order\<lparr>o_status := CANCELLED\<rparr>) d1)"
      by (simp add: stockNonNegative_def save_order_products)
    then show ?thesis using Inr Pair assms(1) nn1
      by (cases r) (simp_all add: cancel_def Let_def)
  qed
qed

lemma decrementStock_distinct:
  assumes "distinct (map p_id (products d))"
  shows "distinct (map p_id (products (snd (decrementStock i q d))))"
proof -
  have "map p_id (products (snd (decrementStock i q d))) = map p_id (products d)"
    by (simp add: decrementStock_products comp_def if_distrib cong: if_cong)
  then show ?thesis using assms by simp
qed

text \<open>
  The ledger of a run of reservations: what is left plus what was granted is the
  stock the run started with, and what is left is not negative.
\<close>

lemma reserveAll_ledger:
  assumes "distinct (map p_id (products d))" and "stockOf d i = Some s" and "0 \<le> s"
  shows "\<exists>s'. stockOf (snd (reserveAll i qs d)) i = Some s' \<and> 0 \<le> s'
            \<and> s' + sum_list (fst (reserveAll i qs d)) = s"
  using assms
proof (induction qs arbitrary: d s)
  case Nil
  then show ?case by simp
next
  case (Cons q qs)
  from Cons.prems(2) obtain p where row: "find (\<lambda>p. p_id p = i) (products d) = Some p"
    and sp: "p_stock p = s"
    by (auto simp: stockOf_def)
  show ?case
  proof (cases "p_stock p < q")
    case True
    show ?thesis
      using Cons.IH [OF Cons.prems] decrementStock_short [OF Cons.prems(1) row True] by simp
  next
    case False
    note dec = decrementStock_enough [OF Cons.prems(1) row False]
    have pk: "distinct (map p_id (products (snd (decrementStock i q d))))"
      using decrementStock_distinct [OF Cons.prems(1)] .
    have nn: "0 \<le> p_stock p - q" using False by simp
    from Cons.IH [OF pk dec(2) nn]
    obtain s' where "stockOf (snd (reserveAll i qs (snd (decrementStock i q d)))) i = Some s'"
      and "0 \<le> s'"
      and "s' + sum_list (fst (reserveAll i qs (snd (decrementStock i q d)))) = p_stock p - q"
      by auto
    then show ?thesis using dec(1) sp by (auto split: prod.splits)
  qed
qed

text \<open>
  Claim C1, as the code has it. Starting from stocks that are all non-negative:
  \<^verbatim>\<open>decrementStock\<close> (whatever the quantity) leaves them non-negative; \<^verbatim>\<open>updateStock\<close>
  does so when the quantity it stores is non-negative; the restock of \<^verbatim>\<open>cancel\<close> does
  so when the quantities of the order items are non-negative; and in any run of
  reservations against one product (ids a primary key) the quantities granted sum to
  at most the initial stock, with a non-negative stock left.
\<close>

theorem stock_never_negative:
  "(stockNonNegative d \<longrightarrow> stockNonNegative (snd (decrementStock i q d)))
   \<and> (stockNonNegative d \<and> 0 \<le> q \<longrightarrow> stockNonNegative (snd (updateStock i q d)))
   \<and> (stockNonNegative d \<and> list_all (\<lambda>item. 0 \<le> oi_quantity item) (orderItems d)
        \<longrightarrow> stockNonNegative (snd (cancel j d)))
   \<and> (distinct (map p_id (products d)) \<and> stockOf d i = Some s \<and> 0 \<le> s
        \<longrightarrow> sum_list (fst (reserveAll i qs d)) \<le> s
            \<and> (\<exists>s'. stockOf (snd (reserveAll i qs d)) i = Some s' \<and> 0 \<le> s'))"
proof -
  have "sum_list (fst (reserveAll i qs d)) \<le> s
          \<and> (\<exists>s'. stockOf (snd (reserveAll i qs d)) i = Some s' \<and> 0 \<le> s')"
    if "distinct (map p_id (products d))" and "stockOf d i = Some s" and "0 \<le> s"
  proof -
    from reserveAll_ledger [OF that, of qs]
    obtain s' where "stockOf (snd (reserveAll i qs d)) i = Some s'" and "0 \<le> s'"
      and "s' + sum_list (fst (reserveAll i qs d)) = s" by auto
    then show ?thesis by auto
  qed
  then show ?thesis
    using decrementStock_nonneg updateStock_nonneg cancel_nonneg by blast
qed

theorem stock_never_negative_witness:
  "stockNonNegative (snd (decrementStock 2 2 shopWithOrder))
   \<and> stockNonNegative (snd (updateStock 1 4 shopWithOrder))
   \<and> stockNonNegative (snd (cancel 1 shopWithOrder))
   \<and> sum_list (fst (reserveAll 2 [2, 4, 1] shopWithOrder)) \<le> 3"
proof -
  have nn: "stockNonNegative shopWithOrder"
    by (simp add: stockNonNegative_def shopWithOrder_def productP_def productQ_def)
  have qs: "list_all (\<lambda>item. 0 \<le> oi_quantity item) (orderItems shopWithOrder)"
    by (simp add: shopWithOrder_def itemOne_def)
  have pk: "distinct (map p_id (products shopWithOrder))"
    by (simp add: shopWithOrder_def productP_def productQ_def)
  have st: "stockOf shopWithOrder 2 = Some 3"
    by (simp add: stockOf_def shopWithOrder_def productP_def productQ_def)
  show ?thesis
    using stock_never_negative [of shopWithOrder 2 2 1 3 "[2, 4, 1]"]
      stock_never_negative [of shopWithOrder 1 4 1 1 "[]"] nn qs pk st
    by simp
qed

text \<open>
  Claim C1 as stated fails for the direct stock update: \<^verbatim>\<open>updateStock\<close> stores the
  quantity it is given, so a negative one makes the stock negative.
\<close>

theorem updateStock_negative_counterexample:
  "stockNonNegative shop
   \<and> stockOf (snd (updateStock 1 (- 1) shop)) 1 = Some (- 1)
   \<and> \<not> stockNonNegative (snd (updateStock 1 (- 1) shop))"
  by (simp add: stockNonNegative_def stockOf_def updateStock_def ProductsService_findOne_def
      save_product_def shop_def productP_def productQ_def Let_def)

section \<open>Payment with retries\<close>

lemma OrdersService_findOne_id:
  "OrdersService_findOne i d = Inr order \<Longrightarrow> o_id order = i"
  by (auto simp: OrdersService_findOne_def loadOrder_def split: option.splits dest: find_key)

lemma findOne_shopWithOrder:
  "OrdersService_findOne 1 shopWithOrder =
     Inr (orderOne\<lparr>o_user := Some userA,
                   o_items := [itemOne\<lparr>oi_product :=
                                 Some (productQ\<lparr>p_stock := 3, p_category := None\<rparr>)\<rparr>]\<rparr>)"
  by (simp add: OrdersService_findOne_def loadOrder_def loadItem_def shopWithOrder_def orderOne_def
      itemOne_def userA_def productP_def productQ_def)

text \<open>One turn of the retry loop, for each thing the gateway can do.\<close>

lemma payLoop_throws:
  assumes "attempt < maxRetries" and "gateway attempt = Throws e"
  shows "payLoop gateway i order attempt lastError tr d =
           payLoop gateway i order (Suc attempt) (Some e)
             (tr @ [Charge i (o_total order), Wait (100 * 2 ^ attempt)]) d"
  using assms by (subst payLoop.simps) simp


lemma payLoop_success:
  assumes "attempt < maxRetries" and "gateway attempt = Returns result" and "pr_success result"
  shows "payLoop gateway i order attempt lastError tr d =
           (Inr result, save_order (order\<lparr>o_status := CONFIRMED\<rparr>) d,
            tr @ [Charge i (o_total order)])"
  using assms by (subst payLoop.simps) simp

lemma payLoop_exhausted:
  assumes "\<not> attempt < maxRetries"
  shows "payLoop gateway i order attempt lastError tr d =
           (Inl (case lastError of None \<Rightarrow> Undefined | Some e \<Rightarrow> e), d, tr)"
  using assms by (subst payLoop.simps) (simp split: option.splits)

lemma attempts_in_bound:
  "0 < maxRetries" "Suc 0 < maxRetries" "Suc (Suc 0) < maxRetries"
  "\<not> Suc (Suc (Suc 0)) < maxRetries"
  by (simp_all add: maxRetries_def)

text \<open>
  Claim C6. When the gateway throws at each of the attempts 0, 1 and 2, \<^verbatim>\<open>processPayment\<close>
  on an existing order calls the gateway exactly three times (with the order's id and
  total), waits 100, 200 and 400 ms after the first, second and third failure, throws
  the error of the last attempt, and leaves the database, and with it the status of the
  order, as it was.
\<close>

theorem processPayment_gateway_always_throws:
  assumes "OrdersService_findOne i d = Inr order"
      and "gateway 0 = Throws e0" and "gateway 1 = Throws e1" and "gateway 2 = Throws e2"
  shows "processPayment gateway i d =
           (Inl e2, d,
            [Charge i (o_total order), Wait 100,
             Charge i (o_total order), Wait 200,
             Charge i (o_total order), Wait 400])"
proof -
  have g1: "gateway (Suc 0) = Throws e1" using assms(3) by simp
  have g2: "gateway (Suc (Suc 0)) = Throws e2" using assms(4) by (simp add: numeral_2_eq_2)
  have "payLoop gateway i order 0 None [] d =
          (Inl e2, d,
           [Charge i (o_total order), Wait 100,
            Charge i (o_total order), Wait 200,
            Charge i (o_total order), Wait 400])"
    by (simp add: payLoop_throws [where gateway = gateway, OF attempts_in_bound(1) assms(2)]
        payLoop_throws [where gateway = gateway, OF attempts_in_bound(2) g1]
        payLoop_throws [where gateway = gateway, OF attempts_in_bound(3) g2]
        payLoop_exhausted [OF attempts_in_bound(4)])
  then show ?thesis using assms(1) by (simp add: processPayment_def)
qed

theorem processPayment_gateway_always_throws_witness:
  "processPayment (\<lambda>k. Throws (Error ''Payment service unavailable'')) 1 shopWithOrder =
     (Inl (Error ''Payment service unavailable''), shopWithOrder,
      [Charge 1 200, Wait 100, Charge 1 200, Wait 200, Charge 1 200, Wait 400])
   \<and> map o_status (orders shopWithOrder) = [PENDING]"
  using processPayment_gateway_always_throws [OF findOne_shopWithOrder,
      of "\<lambda>k. Throws (Error ''Payment service unavailable'')"]
  by (simp add: orderOne_def shopWithOrder_def)



section \<open>Terminal states\<close>

text \<open>
  Claim C8 at a cancelled order: \<^verbatim>\<open>processPayment\<close> with a gateway that accepts confirms
  it, and \<^verbatim>\<open>updateStatus\<close> puts it back to \<^verbatim>\<open>PENDING\<close>; only \<^verbatim>\<open>cancel\<close> looks at the
  current status.
\<close>

theorem terminal_status_overwritten:
  "map o_status (orders cancelledShop) = [CANCELLED]
   \<and> map o_status (orders (fst (snd (processPayment
         (\<lambda>k. Returns \<lparr>pr_success = True, pr_transactionId = ''TXN-0''\<rparr>) 1 cancelledShop))))
       = [CONFIRMED]
   \<and> map o_status (orders (snd (updateStatus 1 PENDING cancelledShop))) = [PENDING]"
  by code_simp

section \<open>Cancellation\<close>

lemma ProductsService_findOne_Inr:
  "ProductsService_findOne i d = Inr p \<longleftrightarrow> find (\<lambda>p. p_id p = i) (products d) = Some p"
  by (simp add: ProductsService_findOne_def split: option.splits)

lemma updateStock_found:
  assumes "find (\<lambda>p. p_id p = i) (products d) = Some p"
  shows "updateStock i q d =
           (Inr (p\<lparr>p_stock := q\<rparr>),
            d\<lparr>products := map (\<lambda>r. if p_id r = i then p\<lparr>p_stock := q\<rparr> else r) (products d)\<rparr>)"
proof -
  have "p_id p = i" using find_key [OF assms] by simp
  then show ?thesis using assms
    by (simp add: updateStock_def ProductsService_findOne_def save_product_def Let_def)
qed

lemma updateStock_stockOf:
  assumes "find (\<lambda>p. p_id p = i) (products d) = Some p"
  shows "stockOf (snd (updateStock i q d)) j = (if j = i then Some q else stockOf d j)"
proof -
  have "p_id (p\<lparr>p_stock := q\<rparr>) = i" using find_key [OF assms] by simp
  then show ?thesis
    using assms
    by (simp add: updateStock_found [OF assms] stockOf_def find_replace [where key = p_id])
qed

lemma restockItems_tables:
  "orders (snd (restockItems its d)) = orders d
   \<and> orderItems (snd (restockItems its d)) = orderItems d
   \<and> users (snd (restockItems its d)) = users d"
proof (induction its arbitrary: d)
  case Nil
  then show ?case by simp
next
  case (Cons item rest)
  show ?case
  proof (cases "find (\<lambda>p. p_id p = oi_productId item) (products d)")
    case None
    then show ?thesis by (simp add: ProductsService_findOne_def)
  next
    case (Some product)
    have k: "p_id product = oi_productId item" using find_key [OF Some] by simp
    show ?thesis
      using Some k Cons.IH
      by (simp add: ProductsService_findOne_def updateStock_found [OF Some])
  qed
qed

lemma restockItems_stock:
  assumes "fst (restockItems its d) = Inr ()"
  shows "stockOf (snd (restockItems its d)) j =
           map_option (\<lambda>s. s + sum_list (map oi_quantity (filter (\<lambda>item. oi_productId item = j) its)))
             (stockOf d j)"
  using assms
proof (induction its arbitrary: d)
  case Nil
  then show ?case by (simp add: option.map_ident)
next
  case (Cons item rest)
  show ?case
  proof (cases "find (\<lambda>p. p_id p = oi_productId item) (products d)")
    case None
    then show ?thesis using Cons.prems by (simp add: ProductsService_findOne_def)
  next
    case (Some product)
    have k: "p_id product = oi_productId item" using find_key [OF Some] by simp
    let ?d1 = "snd (updateStock (oi_productId item) (p_stock product + oi_quantity item) d)"
    have step: "restockItems (item # rest) d = restockItems rest ?d1"
      using Some k by (simp add: ProductsService_findOne_def updateStock_found [OF Some])
    have st1: "stockOf ?d1 j = (if j = oi_productId item then Some (p_stock product + oi_quantity item) else stockOf d j)"
      using updateStock_stockOf [OF Some] .
    have st0: "stockOf d (oi_productId item) = Some (p_stock product)"
      using Some by (simp add: stockOf_def)
    from Cons.prems step have "fst (restockItems rest ?d1) = Inr ()" by simp
    from Cons.IH [OF this] have "stockOf (snd (restockItems rest ?d1)) j =
           map_option (\<lambda>s. s + sum_list (map oi_quantity (filter (\<lambda>item. oi_productId item = j) rest)))
             (stockOf ?d1 j)" .
    then show ?thesis using step st1 st0
      by (cases "stockOf d j") (auto simp: option.map_comp comp_def)
  qed
qed

lemma restockItems_succeeds:
  assumes "list_all (\<lambda>item. find (\<lambda>p. p_id p = oi_productId item) (products d) \<noteq> None) its"
  shows "fst (restockItems its d) = Inr ()"
  using assms
proof (induction its arbitrary: d)
  case Nil
  then show ?case by simp
next
  case (Cons item rest)
  from Cons.prems obtain product where
    Some: "find (\<lambda>p. p_id p = oi_productId item) (products d) = Some product" by auto
  have k: "p_id product = oi_productId item" using find_key [OF Some] by simp
  let ?d1 = "snd (updateStock (oi_productId item) (p_stock product + oi_quantity item) d)"
  have step: "restockItems (item # rest) d = restockItems rest ?d1"
    using Some k by (simp add: ProductsService_findOne_def updateStock_found [OF Some])
  have "find (\<lambda>p. p_id p = j) (products ?d1) \<noteq> None" if "find (\<lambda>p. p_id p = j) (products d) \<noteq> None" for j
    using updateStock_stockOf [OF Some, of "p_stock product + oi_quantity item" j] that
    by (auto simp: stockOf_def split: if_splits)
  then have "list_all (\<lambda>item. find (\<lambda>p. p_id p = oi_productId item) (products ?d1) \<noteq> None) rest"
    using Cons.prems by (auto simp: list_all_iff)
  from Cons.IH [OF this] step show ?case by simp
qed

lemma save_order_status:
  assumes "find (\<lambda>r. o_id r = o_id order) (orders d) \<noteq> None"
  shows "map_option o_status (find (\<lambda>r. o_id r = o_id order) (orders (save_order order d)))
           = Some (o_status order)"
  using assms
  by (auto simp add: save_order_def Let_def find_replace [where key = o_id])

lemma OrdersService_findOne_row:
  "OrdersService_findOne i d = Inr order \<Longrightarrow> find (\<lambda>r. o_id r = i) (orders d) \<noteq> None"
  by (auto simp: OrdersService_findOne_def split: option.splits)

lemma loaded_product:
  "OrdersService_findOne i d = Inr order \<Longrightarrow> item \<in> set (o_items order)
     \<Longrightarrow> (oi_product item \<noteq> None) = (find (\<lambda>p. p_id p = oi_productId item) (products d) \<noteq> None)"
  by (auto simp: OrdersService_findOne_def loadOrder_def loadItem_def split: option.splits)

lemma cancel_pending:
  assumes "OrdersService_findOne i d = Inr order" and "o_status order = PENDING"
  shows "cancel i d =
           (case restockItems (o_items order) d of
              (Inl e, d1) \<Rightarrow> (Inl e, d1)
            | (Inr u, d1) \<Rightarrow>
                (Inr (order\<lparr>o_status := CANCELLED\<rparr>), save_order (order\<lparr>o_status := CANCELLED\<rparr>) d1))"
  using assms by (simp add: cancel_def Let_def split: prod.splits sum.splits)

lemma cancel_not_pending:
  assumes "OrdersService_findOne i d = Inr order" and "o_status order \<noteq> PENDING"
  shows "cancel i d = (Inl (BadRequestException ''Only pending orders can be cancelled''), d)"
  using assms by (simp add: cancel_def)

text \<open>
  Claim C5. For an order that exists: when its status is \<^verbatim>\<open>CONFIRMED\<close> or \<^verbatim>\<open>CANCELLED\<close>,
  \<^verbatim>\<open>cancel\<close> throws its invalid-transition exception and leaves the database, so every
  stock, as it was; when it is \<^verbatim>\<open>PENDING\<close> and the products of its items exist,
  \<^verbatim>\<open>cancel\<close> succeeds; and whenever \<^verbatim>\<open>cancel\<close> succeeds the order was \<^verbatim>\<open>PENDING\<close>, it is
  returned and stored as \<^verbatim>\<open>CANCELLED\<close>, and the stock of every product has grown by
  exactly the quantities of the order's items for that product.
\<close>

theorem cancel_compensates:
  assumes "OrdersService_findOne i d = Inr order"
  shows "(o_status order = CONFIRMED \<or> o_status order = CANCELLED \<longrightarrow>
            cancel i d = (Inl (BadRequestException ''Only pending orders can be cancelled''), d))
       \<and> (o_status order = PENDING \<and> list_all (\<lambda>item. oi_product item \<noteq> None) (o_items order) \<longrightarrow>
            fst (cancel i d) = Inr (order\<lparr>o_status := CANCELLED\<rparr>))
       \<and> (\<forall>order'. fst (cancel i d) = Inr order' \<longrightarrow>
            o_status order = PENDING
            \<and> order' = order\<lparr>o_status := CANCELLED\<rparr>
            \<and> map_option o_status (find (\<lambda>r. o_id r = i) (orders (snd (cancel i d)))) = Some CANCELLED
            \<and> (\<forall>j. stockOf (snd (cancel i d)) j =
                   map_option (\<lambda>s. s + sum_list (map oi_quantity
                       (filter (\<lambda>item. oi_productId item = j) (o_items order))))
                     (stockOf d j)))"
proof (intro conjI impI allI)
  assume "o_status order = CONFIRMED \<or> o_status order = CANCELLED"
  then have "o_status order \<noteq> PENDING" by auto
  then show "cancel i d = (Inl (BadRequestException ''Only pending orders can be cancelled''), d)"
    using cancel_not_pending [OF assms] by simp
next
  assume a: "o_status order = PENDING \<and> list_all (\<lambda>item. oi_product item \<noteq> None) (o_items order)"
  then have "list_all (\<lambda>item. find (\<lambda>p. p_id p = oi_productId item) (products d) \<noteq> None) (o_items order)"
    using loaded_product [OF assms] by (auto simp: list_all_iff)
  then have "fst (restockItems (o_items order) d) = Inr ()" by (rule restockItems_succeeds)
  then show "fst (cancel i d) = Inr (order\<lparr>o_status := CANCELLED\<rparr>)"
    using a cancel_pending [OF assms] by (auto split: prod.splits sum.splits)
next
  fix order'
  assume ok: "fst (cancel i d) = Inr order'"
  show pending: "o_status order = PENDING"
  proof (rule ccontr)
    assume "o_status order \<noteq> PENDING"
    then show False using cancel_not_pending [OF assms] ok by simp
  qed
  note c = cancel_pending [OF assms pending]
  obtain r d1 where rs: "restockItems (o_items order) d = (r, d1)" by (cases "restockItems (o_items order) d")
  have r: "r = Inr ()" using c rs ok by (cases r) auto
  have res: "cancel i d = (Inr (order\<lparr>o_status := CANCELLED\<rparr>), save_order (order\<lparr>o_status := CANCELLED\<rparr>) d1)"
    using c rs r by simp
  show "order' = order\<lparr>o_status := CANCELLED\<rparr>" using res ok by simp
  have oid: "o_id order = i" using OrdersService_findOne_id [OF assms] .
  have "orders d1 = orders d" using restockItems_tables [of "o_items order" d] rs by simp
  then have "find (\<lambda>r. o_id r = o_id (order\<lparr>o_status := CANCELLED\<rparr>)) (orders d1) \<noteq> None"
    using OrdersService_findOne_row [OF assms] oid by simp
  from save_order_status [OF this]
  show "map_option o_status (find (\<lambda>r. o_id r = i) (orders (snd (cancel i d)))) = Some CANCELLED"
    using res oid by simp
  fix j
  have "stockOf (snd (cancel i d)) j = stockOf d1 j"
    using res by (simp add: stockOf_def save_order_products)
  also have "\<dots> = map_option (\<lambda>s. s + sum_list (map oi_quantity
                       (filter (\<lambda>item. oi_productId item = j) (o_items order))))
                     (stockOf d j)"
    using restockItems_stock [of "o_items order" d j] rs r by simp
  finally show "stockOf (snd (cancel i d)) j =
                   map_option (\<lambda>s. s + sum_list (map oi_quantity
                       (filter (\<lambda>item. oi_productId item = j) (o_items order))))
                     (stockOf d j)" .
qed

theorem cancel_compensates_witness:
  "stockOf shopWithOrder 2 = Some 3
   \<and> stockOf (snd (cancel 1 shopWithOrder)) 2 = Some 5
   \<and> stockOf (snd (cancel 1 shopWithOrder)) 1 = stockOf shopWithOrder 1
   \<and> map_option o_status (find (\<lambda>r. o_id r = 1) (orders (snd (cancel 1 shopWithOrder)))) = Some CANCELLED
   \<and> cancel 1 cancelledShop = (Inl (BadRequestException ''Only pending orders can be cancelled''), cancelledShop)"
proof -
  note c = cancel_compensates [OF findOne_shopWithOrder]
  have "fst (cancel 1 shopWithOrder) =
      Inr (orderOne\<lparr>o_user := Some userA,
                   o_items := [itemOne\<lparr>oi_product :=
                                 Some (productQ\<lparr>p_stock := 3, p_category := None\<rparr>)\<rparr>],
                   o_status := CANCELLED\<rparr>)"
    by (rule c [THEN conjunct2, THEN conjunct1, rule_format]) (simp add: orderOne_def)
  note after = c [THEN conjunct2, THEN conjunct2, rule_format, OF this]
  have s: "stockOf shopWithOrder 2 = Some 3" "stockOf shopWithOrder 1 = Some 1"
    by (simp_all add: stockOf_def shopWithOrder_def productP_def productQ_def)
  have s2: "stockOf (snd (cancel 1 shopWithOrder)) 2 = Some 5"
    using after [THEN conjunct2, THEN conjunct2, THEN conjunct2, rule_format, of 2]
    by (simp add: s itemOne_def)
  have s1: "stockOf (snd (cancel 1 shopWithOrder)) 1 = stockOf shopWithOrder 1"
    using after [THEN conjunct2, THEN conjunct2, THEN conjunct2, rule_format, of 1]
    by (simp add: s itemOne_def)
  note st = after [THEN conjunct2, THEN conjunct2, THEN conjunct1]
  have f: "OrdersService_findOne 1 cancelledShop =
     Inr (orderOne\<lparr>o_status := CANCELLED, o_user := Some userA,
                   o_items := [itemOne\<lparr>oi_product :=
                                 Some (productQ\<lparr>p_category := None\<rparr>)\<rparr>]\<rparr>)"
    by (simp add: OrdersService_findOne_def loadOrder_def loadItem_def cancelledShop_def
        shopWithOrder_def orderOne_def itemOne_def userA_def productP_def productQ_def)
  have "cancel 1 cancelledShop =
          (Inl (BadRequestException ''Only pending orders can be cancelled''), cancelledShop)"
    by (rule cancel_compensates [OF f, THEN conjunct1, rule_format]) simp
  then show ?thesis using s s1 s2 st by simp
qed

section \<open>Projection\<close>

lemma mapItems_loaded:
  assumes "list_all (\<lambda>item. oi_product item \<noteq> None) its"
  shows "\<exists>xs. mapItems its = Inr xs
          \<and> list_all2 (\<lambda>item x. \<exists>product. oi_product item = Some product
                 \<and> x = \<lparr>oid_id = oi_id item, oid_productId = oi_productId item,
                        oid_quantity = oi_quantity item, oid_price = oi_price item,
                        oid_product = \<lparr>ps_id = p_id product, ps_name = p_name product,
                           ps_price = p_price product,
                           ps_category = (case p_category product of None \<Rightarrow> None
                              | Some c \<Rightarrow> Some \<lparr>cs_id = c_id c, cs_name = c_name c\<rparr>)\<rparr>\<rparr>)
                its xs"
  using assms
proof (induction its)
  case Nil
  then show ?case by simp
next
  case (Cons item rest)
  from Cons.prems obtain product where p: "oi_product item = Some product" by auto
  from Cons obtain xs where xs: "mapItems rest = Inr xs"
    and rel: "list_all2 (\<lambda>item x. \<exists>product. oi_product item = Some product
                 \<and> x = \<lparr>oid_id = oi_id item, oid_productId = oi_productId item,
                        oid_quantity = oi_quantity item, oid_price = oi_price item,
                        oid_product = \<lparr>ps_id = p_id product, ps_name = p_name product,
                           ps_price = p_price product,
                           ps_category = (case p_category product of None \<Rightarrow> None
                              | Some c \<Rightarrow> Some \<lparr>cs_id = c_id c, cs_name = c_name c\<rparr>)\<rparr>\<rparr>)
                rest xs" by auto
  show ?case using p xs rel by (simp add: mapItem_def split: option.splits)
qed

text \<open>
  Claim C9. For an order loaded with its user and with the product of every item,
  \<^verbatim>\<open>mapToOrderFullDetails\<close> returns a response (a finite tree: its type has no field for
  an order or a user to recur in) whose scalar fields are the order's, whose
  \<open>user.latestOrder\<close> is the id, status, total and creation time of this very order,
  and whose items carry, in order, the item's scalars and its product as id, name and
  price with the category as \<open>{id, name}\<close> or \<^verbatim>\<open>null\<close>. Nothing but the order given is
  read, so no other order of the user can appear.
\<close>

theorem mapToOrderFullDetails_projection:
  assumes "o_user order = Some user"
      and "list_all (\<lambda>item. oi_product item \<noteq> None) (o_items order)"
  shows "\<exists>r. mapToOrderFullDetails order = Inr r
           \<and> r_id r = o_id order \<and> r_status r = o_status order \<and> r_total r = o_total order
           \<and> r_userId r = o_userId order \<and> r_createdAt r = o_createdAt order
           \<and> r_user r = \<lparr>us_id = u_id user, us_email = u_email user, us_name = u_name user,
                 us_isActive = u_isActive user, us_createdAt = u_createdAt user,
                 us_latestOrder = \<lparr>os_id = o_id order, os_status = o_status order,
                                    os_total = o_total order, os_createdAt = o_createdAt order\<rparr>\<rparr>
           \<and> list_all2 (\<lambda>item x. \<exists>product. oi_product item = Some product
                 \<and> x = \<lparr>oid_id = oi_id item, oid_productId = oi_productId item,
                        oid_quantity = oi_quantity item, oid_price = oi_price item,
                        oid_product = \<lparr>ps_id = p_id product, ps_name = p_name product,
                           ps_price = p_price product,
                           ps_category = (case p_category product of None \<Rightarrow> None
                              | Some c \<Rightarrow> Some \<lparr>cs_id = c_id c, cs_name = c_name c\<rparr>)\<rparr>\<rparr>)
                 (o_items order) (r_items r)"
  using assms(1) mapItems_loaded [OF assms(2)]
  by (auto simp: mapToOrderFullDetails_def)

theorem mapToOrderFullDetails_projection_witness:
  "\<exists>r. mapToOrderFullDetails (loadOrder True shopWithOrder orderOne) = Inr r
     \<and> us_latestOrder (r_user r)
          = \<lparr>os_id = 1, os_status = PENDING, os_total = 200, os_createdAt = 10\<rparr>
     \<and> map oid_product (r_items r)
          = [\<lparr>ps_id = 2, ps_name = ''Q'', ps_price = 100,
              ps_category = Some \<lparr>cs_id = 7, cs_name = ''tools''\<rparr>\<rparr>]"
proof -
  have ld: "loadOrder True shopWithOrder orderOne =
              orderOne\<lparr>o_user := Some userA,
                       o_items := [itemOne\<lparr>oi_product := Some (productQ\<lparr>p_stock := 3\<rparr>)\<rparr>]\<rparr>"
    by (simp add: loadOrder_def loadItem_def shopWithOrder_def orderOne_def itemOne_def
        userA_def productP_def productQ_def)
  have u: "o_user (loadOrder True shopWithOrder orderOne) = Some userA"
    by (simp add: ld)
  have l: "list_all (\<lambda>item. oi_product item \<noteq> None) (o_items (loadOrder True shopWithOrder orderOne))"
    by (simp add: ld)
  show ?thesis
    unfolding ld
    using mapToOrderFullDetails_projection [OF u l, unfolded ld]
    by (auto simp add: orderOne_def itemOne_def productQ_def list_all2_Cons1)
qed

section \<open>Batch maintenance\<close>





section \<open>Order creation\<close>









lemma find_snoc_fresh:
  assumes "\<forall>r\<in>set rs. key r \<noteq> key x"
  shows "find (\<lambda>r. key r = key x) (rs @ [x]) = Some x"
  using assms by (induction rs) auto







text \<open>
  Claim C3 at a request for two units of P, of which one is in stock: \<^verbatim>\<open>create\<close> throws
  the insufficient-stock exception naming P and changes no stock, but the order shell
  it saved first stays in the database with status \<^verbatim>\<open>PENDING\<close>, and \<^verbatim>\<open>processPayment\<close>
  then confirms it. When the second line is the one that fails, the first line's item
  and reservation stay as well.
\<close>

theorem create_insufficient_stock_leaves_pending_order:
  "create tooMany 10 shop =
     (Inl (BadRequestException ''Not enough stock for P''),
      shop\<lparr>orders := [\<lparr>o_id = 1, o_userId = 1, o_status = PENDING, o_total = 0,
                        o_createdAt = 10, o_user = None, o_items = []\<rparr>]\<rparr>)
   \<and> map o_status (orders (fst (snd (processPayment
         (\<lambda>k. Returns \<lparr>pr_success = True, pr_transactionId = ''TXN-0''\<rparr>) 1
         (snd (create tooMany 10 shop)))))) = [CONFIRMED]
   \<and> fst (create secondLineTooMany 10 shop) = Inl (BadRequestException ''Not enough stock for P'')
   \<and> map o_status (orders (snd (create secondLineTooMany 10 shop))) = [PENDING]
   \<and> map oi_productId (orderItems (snd (create secondLineTooMany 10 shop))) = [2]
   \<and> stockOf (snd (create secondLineTooMany 10 shop)) 2 = Some 3"
  by code_simp

end
